theory Spec2Isabelle
  imports Complex_Main "HOL-Library.Sublist" "HOL-Library.Word"
begin

section \<open>ECMAScript string primitives used by socketService.js\<close>

text \<open>
  A JavaScript string is modelled as a \<^typ>\<open>string\<close>: a list of code units below 256,
  which covers the ASCII line protocol of the service. The built-in methods the message
  handler calls are written out: \<open>trim\<close>, \<open>startsWith\<close>, \<open>includes\<close>, \<open>indexOf\<close>,
  \<open>substring\<close>, \<open>split\<close> and \<open>join\<close>.
\<close>

definition is_ws :: "char \<Rightarrow> bool" where
  \<comment> \<open>WhiteSpace and LineTerminator below U+0100: TAB, LF, VT, FF, CR, SP, NBSP\<close>
  "is_ws c = (c \<in> set [CHR 0x09, CHR 0x0A, CHR 0x0B, CHR 0x0C, CHR 0x0D, CHR 0x20, CHR 0xA0])"

definition is_digit :: "char \<Rightarrow> bool" where
  \<comment> \<open>the regular expression class \<open>\d\<close> and the grammar's DecimalDigit\<close>
  "is_digit c = (c \<in> set ''0123456789'')"

definition trim_js :: "string \<Rightarrow> string" where
  "trim_js s = rev (dropWhile is_ws (rev (dropWhile is_ws s)))"

definition startsWith :: "string \<Rightarrow> string \<Rightarrow> bool" where
  "startsWith s p = prefix p s"

fun includes_js :: "string \<Rightarrow> string \<Rightarrow> bool" where
  "includes_js [] p = (p = [])"
| "includes_js (c # cs) p = (prefix p (c # cs) \<or> includes_js cs p)"

fun indexOf_char :: "string \<Rightarrow> char \<Rightarrow> int" where
  \<comment> \<open>\<open>s.indexOf(c)\<close> for a one-character needle: \<open>-1\<close> when absent\<close>
  "indexOf_char [] c = -1"
| "indexOf_char (x # xs) c =
     (if x = c then 0 else (let i = indexOf_char xs c in if i < 0 then -1 else i + 1))"

definition substring_from :: "string \<Rightarrow> int \<Rightarrow> string" where
  \<comment> \<open>\<open>s.substring(i)\<close>: a negative start counts as 0\<close>
  "substring_from s i = drop (nat i) s"

function split_js :: "string \<Rightarrow> string \<Rightarrow> string list" where
  \<comment> \<open>\<open>s.split(sep)\<close> for a string separator: cut at every occurrence, left to right\<close>
  "split_js [] sep = (if sep = [] then [] else [[]])"
| "split_js (c # cs) sep =
     (if sep = [] then map (\<lambda>x. [x]) (c # cs)
      else if prefix sep (c # cs) then [] # split_js (drop (length sep - 1) cs) sep
      else (case split_js cs sep of
              [] \<Rightarrow> [[c]]
            | w # ws \<Rightarrow> (c # w) # ws))"
  by pat_completeness auto
termination
  by (relation "measure (\<lambda>(s, sep). length s)") auto


definition tokens_of :: "string \<Rightarrow> string list" where
  \<comment> \<open>\<open>s.split(',').map(point => point.trim()).filter(point => point.length > 0)\<close>\<close>
  "tokens_of s = filter (\<lambda>p. length p > 0) (map trim_js (split_js s '',''))"

section \<open>Numbers: \<open>parseFloat\<close>, \<open>parseInt\<close> and \<open>isNaN\<close>\<close>

text \<open>
  A number is \<open>NaN\<close>, an infinity or a finite value. The finite value of a decimal
  literal is kept exactly, as a rational; the rounding of a literal to the nearest
  double is not part of the model.
\<close>

datatype jsnum = NaN | Num rat | PosInf | NegInf

definition isNaN :: "jsnum \<Rightarrow> bool" where
  "isNaN x = (x = NaN)"

definition negate :: "jsnum \<Rightarrow> jsnum" where
  "negate x = (case x of NaN \<Rightarrow> NaN | Num r \<Rightarrow> Num (- r) | PosInf \<Rightarrow> NegInf | NegInf \<Rightarrow> PosInf)"

definition digit_val :: "char \<Rightarrow> nat" where
  "digit_val c = of_char c - 48"

definition digits_val :: "string \<Rightarrow> nat" where
  "digits_val ds = foldl (\<lambda>a c. 10 * a + digit_val c) 0 ds"

definition exponent_part :: "string \<Rightarrow> int" where
  \<comment> \<open>the value of a leading ExponentPart (\<open>e\<close> or \<open>E\<close>, an optional sign, digits), 0 when
      the text does not start with one\<close>
  "exponent_part s =
     (case s of
        [] \<Rightarrow> 0
      | e # r \<Rightarrow>
          if e = CHR ''e'' \<or> e = CHR ''E'' then
            (case r of
               [] \<Rightarrow> 0
             | g # r' \<Rightarrow>
                 if g = CHR ''+'' then
                   (if takeWhile is_digit r' = [] then 0
                    else int (digits_val (takeWhile is_digit r')))
                 else if g = CHR ''-'' then
                   (if takeWhile is_digit r' = [] then 0
                    else - int (digits_val (takeWhile is_digit r')))
                 else
                   (if takeWhile is_digit r = [] then 0
                    else int (digits_val (takeWhile is_digit r))))
          else 0)"

definition scale10 :: "rat \<Rightarrow> int \<Rightarrow> rat" where
  "scale10 m e = (if e \<ge> 0 then m * 10 ^ nat e else m / 10 ^ nat (- e))"

definition unsigned_literal :: "string \<Rightarrow> jsnum" where
  \<comment> \<open>the longest prefix that is a StrUnsignedDecimalLiteral, and its value\<close>
  "unsigned_literal s =
     (if prefix ''Infinity'' s then PosInf
      else
        let ip = takeWhile is_digit s; r1 = dropWhile is_digit s
        in (case r1 of
              [] \<Rightarrow> (if ip = [] then NaN else Num (of_nat (digits_val ip)))
            | d # r2 \<Rightarrow>
                if d = CHR ''.'' then
                  (let fp = takeWhile is_digit r2; r3 = dropWhile is_digit r2
                   in if ip = [] \<and> fp = [] then NaN
                      else Num (scale10 (of_nat (digits_val (ip @ fp)))
                                  (exponent_part r3 - int (length fp))))
                else if ip = [] then NaN
                else Num (scale10 (of_nat (digits_val ip)) (exponent_part r1))))"

definition parseFloat :: "string \<Rightarrow> jsnum" where
  \<comment> \<open>leading white space is skipped, then an optional sign and the literal\<close>
  "parseFloat s =
     (case dropWhile is_ws s of
        [] \<Rightarrow> NaN
      | c # r \<Rightarrow>
          if c = CHR ''+'' then unsigned_literal r
          else if c = CHR ''-'' then negate (unsigned_literal r)
          else unsigned_literal (c # r))"

definition parseInt_digits :: "string \<Rightarrow> nat" where
  \<comment> \<open>\<open>parseInt\<close> is only applied to the capture of \<open>(\d+)\<close>, a non-empty run of decimal
      digits, where it is the decimal value\<close>
  "parseInt_digits ds = digits_val ds"

function decimal :: "nat \<Rightarrow> string" where
  \<comment> \<open>\<open>String(n)\<close> for a non-negative integer, as a template literal renders it\<close>
  "decimal n = (if n < 10 then [char_of (48 + n)] else decimal (n div 10) @ [char_of (48 + n mod 10)])"
  by pat_completeness auto
termination
  by (relation "measure id") auto

declare decimal.simps [simp del]

section \<open>The message handler of the native WebSocket\<close>

text \<open>
  Decoded values. The metadata object of a sample is a map from property names to
  values; a timestamp is a \<open>Date\<close>, in milliseconds. What \<open>onmessage\<close> does is the list
  of its calls to the console (\<open>warn\<close> and \<open>error\<close>; \<open>console.log\<close> is left out) and to
  the caller's callbacks, in order.
\<close>

datatype mval = MStr string | MBool bool | MNum nat

record sample =
  amplitude :: jsnum
  timestamp :: int
  metadata :: "string \<rightharpoonup> mval"

datatype jsval =
    VNull | VBool bool | VNum jsnum | VStr string
  | VArr "jsval list" | VObj "(string \<times> jsval) list"

datatype payload = Envelope "(string \<times> jsval) list" | Single sample | Batch "sample list"

datatype log_error = ParseJsonFailed | ProcessMessageFailed | ConnectionError

datatype event =
    ConsoleWarn string
  | ConsoleError log_error
  | OnEarthquakeData payload
  | OnError

text \<open>
  The callback \<open>onEarthquakeData\<close> is optional; a supplied callback is given by the
  predicate that says on which argument it throws.
\<close>

type_synonym data_callback = "(payload \<Rightarrow> bool) option"

definition deliver :: "data_callback \<Rightarrow> payload \<Rightarrow> log_error \<Rightarrow> event list" where
  \<comment> \<open>\<open>if (onEarthquakeData) onEarthquakeData(p)\<close> inside a \<open>try\<close> whose \<open>catch\<close> logs \<open>err\<close>\<close>
  "deliver cb p err =
     (case cb of
        None \<Rightarrow> []
      | Some throws \<Rightarrow> OnEarthquakeData p # (if throws p then [ConsoleError err] else []))"

subsection \<open>The structured envelope\<close>

definition truthy :: "jsval \<Rightarrow> bool" where
  "truthy v =
     (case v of
        VNull \<Rightarrow> False
      | VBool b \<Rightarrow> b
      | VNum x \<Rightarrow> x \<noteq> NaN \<and> x \<noteq> Num 0
      | VStr s \<Rightarrow> s \<noteq> []
      | VArr xs \<Rightarrow> True
      | VObj kvs \<Rightarrow> True)"

definition spread_props :: "jsval \<Rightarrow> (string \<times> jsval) list" where
  \<comment> \<open>\<open>{ ...v }\<close>: the own enumerable properties of \<open>v\<close>\<close>
  "spread_props v =
     (case v of
        VObj kvs \<Rightarrow> kvs
      | VArr xs \<Rightarrow> map (\<lambda>(i, x). (decimal i, x)) (enumerate 0 xs)
      | VStr s \<Rightarrow> map (\<lambda>(i, c). (decimal i, VStr [c])) (enumerate 0 s)
      | _ \<Rightarrow> [])"

fun set_prop :: "string \<Rightarrow> jsval \<Rightarrow> (string \<times> jsval) list \<Rightarrow> (string \<times> jsval) list" where
  "set_prop k v [] = [(k, v)]"
| "set_prop k v ((k', v') # kvs) =
     (if k' = k then (k, v) # kvs else (k', v') # set_prop k v kvs)"

definition normalize_amplitude :: "(string \<times> jsval) list \<Rightarrow> (string \<times> jsval) list" where
  \<comment> \<open>a string amplitude that \<open>parseFloat\<close> reads is replaced by the number; any other
      amplitude keeps its original value\<close>
  "normalize_amplitude props =
     (case map_of props ''amplitude'' of
        Some (VStr s) \<Rightarrow>
          (let numValue = parseFloat s
           in if \<not> isNaN numValue then set_prop ''amplitude'' (VNum numValue) props
              else props)
      | _ \<Rightarrow> props)"

definition json_message :: "(string \<Rightarrow> jsval option) \<Rightarrow> data_callback \<Rightarrow> string \<Rightarrow> event list" where
  \<comment> \<open>the branch for a text that starts with \<open>{\<close> or \<open>[\<close>. \<open>JSON.parse\<close> is the built-in
      of the runtime and a parameter here: \<open>None\<close> is its SyntaxError. The inner \<open>catch\<close>
      logs every exception of the branch to the console and calls nothing else.\<close>
  "json_message json_parse cb text =
     (case json_parse text of
        None \<Rightarrow> [ConsoleError ParseJsonFailed]
      | Some VNull \<Rightarrow> [ConsoleError ParseJsonFailed]
      | Some (VObj kvs) \<Rightarrow>
          (case map_of kvs ''payload'' of
             None \<Rightarrow> []
           | Some pl \<Rightarrow>
               if map_of kvs ''type'' = Some (VStr ''earthquake-data'') \<and> truthy pl
               then deliver cb (Envelope (normalize_amplitude (spread_props pl))) ParseJsonFailed
               else [])
      | Some _ \<Rightarrow> [])"

subsection \<open>The comma-separated line protocol\<close>

definition meta_prefix :: "string \<Rightarrow> bool" where
  \<comment> \<open>\<open>data.match(/^T\d+H\d+V\d+,/)\<close>\<close>
  "meta_prefix s =
     (case s of
        [] \<Rightarrow> False
      | t # r \<Rightarrow>
          t = CHR ''T'' \<and> takeWhile is_digit r \<noteq> [] \<and>
          (case dropWhile is_digit r of
             [] \<Rightarrow> False
           | h # r1 \<Rightarrow>
               h = CHR ''H'' \<and> takeWhile is_digit r1 \<noteq> [] \<and>
               (case dropWhile is_digit r1 of
                  [] \<Rightarrow> False
                | v # r2 \<Rightarrow>
                    v = CHR ''V'' \<and> takeWhile is_digit r2 \<noteq> [] \<and>
                    (case dropWhile is_digit r2 of
                       [] \<Rightarrow> False
                     | c # r3 \<Rightarrow> c = CHR '',''))))"

fun match_field :: "char \<Rightarrow> string \<Rightarrow> string option" where
  \<comment> \<open>\<open>metaPart.match(/T(\d+)/)\<close> and its siblings: the digits captured at the leftmost
      occurrence of the letter before a digit\<close>
  "match_field l [] = None"
| "match_field l (c # cs) =
     (if c = l \<and> takeWhile is_digit cs \<noteq> [] then Some (takeWhile is_digit cs)
      else match_field l cs)"

definition set_field :: "string \<Rightarrow> string option \<Rightarrow> (string \<rightharpoonup> mval) \<Rightarrow> (string \<rightharpoonup> mval)" where
  \<comment> \<open>\<open>if (m) metadata.k = parseInt(m[1])\<close>\<close>
  "set_field k m md = (case m of None \<Rightarrow> md | Some ds \<Rightarrow> md(k \<mapsto> MNum (parseInt_digits ds)))"

definition parse_metadata :: "string \<Rightarrow> (string \<rightharpoonup> mval)" where
  "parse_metadata text =
     (let metaPart = (case split_js text '','' of [] \<Rightarrow> [] | p # ps \<Rightarrow> p)
      in set_field ''voltage'' (match_field CHR ''V'' metaPart)
           (set_field ''humidity'' (match_field CHR ''H'' metaPart)
              (set_field ''temperature'' (match_field CHR ''T'' metaPart) Map.empty)))"

definition point_of ::
  "int \<Rightarrow> string option \<Rightarrow> (string \<rightharpoonup> mval) \<Rightarrow> nat \<Rightarrow> nat \<times> string \<Rightarrow> sample option" where
  \<comment> \<open>the function mapped over a channel's tokens: \<open>None\<close> is the \<open>null\<close> of a token that is
      not a number. The spread of the frame's metadata comes last in the object literal.\<close>
  "point_of currentTime waveformType md n ip =
     (case ip of (index, point) \<Rightarrow>
        let amp = parseFloat point
        in if isNaN amp then None
           else Some \<lparr> amplitude = amp,
                       timestamp = currentTime - (int n - 1 - int index) * 10,
                       metadata =
                         (case waveformType of
                            None \<Rightarrow>
                              [''source'' \<mapsto> MStr ''external'', ''raw'' \<mapsto> MBool True,
                               ''batchIndex'' \<mapsto> MNum index, ''batchSize'' \<mapsto> MNum n]
                          | Some w \<Rightarrow>
                              [''source'' \<mapsto> MStr ''external'', ''raw'' \<mapsto> MBool True,
                               ''batchIndex'' \<mapsto> MNum index, ''batchSize'' \<mapsto> MNum n,
                               ''waveformType'' \<mapsto> MStr w]) ++ md \<rparr>)"

definition channel_points ::
  "int \<Rightarrow> string option \<Rightarrow> (string \<rightharpoonup> mval) \<Rightarrow> string list \<Rightarrow> sample list" where
  \<comment> \<open>\<open>points.map((point, index) => ...).filter(point => point !== null)\<close>\<close>
  "channel_points currentTime waveformType md points =
     List.map_filter (point_of currentTime waveformType md (length points)) (enumerate 0 points)"

definition warnings :: "string list \<Rightarrow> event list" where
  \<comment> \<open>the \<open>console.warn\<close> of each token that is not a number\<close>
  "warnings points = map ConsoleWarn (filter (\<lambda>p. isNaN (parseFloat p)) points)"

text \<open>
  The three shapes of a frame that starts with the \<open>X\<close> marker. A missing \<open>Y\<close> part in
  a frame with a \<open>Z\<close> part makes \<open>xyParts[1]\<close> undefined, and its \<open>split\<close> a TypeError.
\<close>

datatype waveforms =
    Triple "string list" "string list" "string list"
  | Dual "string list" "string list"
  | OnlyX "string list"
  | TypeError

definition nth_part :: "string list \<Rightarrow> nat \<Rightarrow> string option" where
  \<comment> \<open>\<open>parts[i]\<close>, \<open>None\<close> for \<open>undefined\<close>\<close>
  "nth_part parts i = (if i < length parts then Some (parts ! i) else None)"

definition split_waveforms :: "string \<Rightarrow> waveforms" where
  "split_waveforms parsedMessage =
     (if includes_js parsedMessage '',Z'' then
        (let parts = split_js parsedMessage '',Z'';
             xyParts = split_js (case nth_part parts 0 of None \<Rightarrow> [] | Some p \<Rightarrow> p) '',Y''
         in case (nth_part xyParts 0, nth_part xyParts 1, nth_part parts 1) of
              (Some x, Some y, Some z) \<Rightarrow>
                Triple (tokens_of (substring_from x 1)) (tokens_of y) (tokens_of z)
            | _ \<Rightarrow> TypeError)
      else if includes_js parsedMessage '',Y'' then
        (let parts = split_js parsedMessage '',Y''
         in case (nth_part parts 0, nth_part parts 1) of
              (Some x, Some y) \<Rightarrow> Dual (tokens_of (substring_from x 1)) (tokens_of y)
            | _ \<Rightarrow> TypeError)
      else OnlyX (tokens_of (substring_from parsedMessage 1)))"

definition x_message ::
  "data_callback \<Rightarrow> int \<Rightarrow> (string \<rightharpoonup> mval) \<Rightarrow> string \<Rightarrow> event list" where
  \<comment> \<open>the branch for a message that starts with \<open>X\<close>. With an \<open>X\<close> part alone the tokens
      go to \<open>dataPoints\<close>, which this branch never reads: \<open>firstWaveformPoints\<close> stays empty.\<close>
  "x_message cb currentTime md parsedMessage =
     (case split_waveforms parsedMessage of
        TypeError \<Rightarrow> [ConsoleError ProcessMessageFailed]
      | Triple xs ys zs \<Rightarrow>
          (let md' = md(''dataType'' \<mapsto> MStr ''triple-waveform'',
                        ''secondWaveform'' \<mapsto> MBool True, ''thirdWaveform'' \<mapsto> MBool True);
               allProcessedPoints =
                 channel_points currentTime (Some ''X'') md' xs
                 @ channel_points currentTime (Some ''Y'') md' ys
                 @ channel_points currentTime (Some ''Z'') md' zs
           in warnings xs @ warnings ys @ warnings zs
              @ (if length allProcessedPoints > 0
                 then deliver cb (Batch allProcessedPoints) ProcessMessageFailed else []))
      | Dual xs ys \<Rightarrow>
          (let md' = md(''dataType'' \<mapsto> MStr ''dual-waveform'', ''secondWaveform'' \<mapsto> MBool True);
               allProcessedPoints =
                 channel_points currentTime (Some ''X'') md' xs
                 @ channel_points currentTime (Some ''Y'') md' ys
           in warnings xs @ warnings ys
              @ (if length allProcessedPoints > 0
                 then deliver cb (Batch allProcessedPoints) ProcessMessageFailed else []))
      | OnlyX dataPoints \<Rightarrow>
          (let md' = md(''dataType'' \<mapsto> MStr ''waveform'');
               allProcessedPoints = channel_points currentTime (Some ''X'') md' []
           in if length allProcessedPoints > 0
              then deliver cb (Batch allProcessedPoints) ProcessMessageFailed else []))"

definition unlabeled_message ::
  "data_callback \<Rightarrow> int \<Rightarrow> (string \<rightharpoonup> mval) \<Rightarrow> string \<Rightarrow> event list" where
  \<comment> \<open>the regular format, no marker\<close>
  "unlabeled_message cb currentTime md parsedMessage =
     (let dataPoints = tokens_of parsedMessage;
          processedDataPoints = channel_points currentTime None md dataPoints
      in warnings dataPoints
         @ (if length processedDataPoints > 0
            then deliver cb (Batch processedDataPoints) ProcessMessageFailed else []))"

definition comma_message :: "data_callback \<Rightarrow> int \<Rightarrow> string \<Rightarrow> event list" where
  "comma_message cb currentTime text =
     (let md = (if meta_prefix text then parse_metadata text else Map.empty);
          parsedMessage =
            (if meta_prefix text then substring_from text (indexOf_char text CHR '','' + 1)
             else text)
      in if startsWith parsedMessage ''X'' then x_message cb currentTime md parsedMessage
         else unlabeled_message cb currentTime md parsedMessage)"

definition raw_message :: "data_callback \<Rightarrow> int \<Rightarrow> string \<Rightarrow> event list" where
  \<comment> \<open>a single value, no separator\<close>
  "raw_message cb currentTime text =
     (let amp = parseFloat text
      in if \<not> isNaN amp then
           deliver cb
             (Single \<lparr> amplitude = amp, timestamp = currentTime,
                       metadata = [''source'' \<mapsto> MStr ''external'', ''raw'' \<mapsto> MBool True] \<rparr>)
             ProcessMessageFailed
         else [ConsoleWarn text])"

definition onmessage ::
  "(string \<Rightarrow> jsval option) \<Rightarrow> data_callback \<Rightarrow> int \<Rightarrow> string \<Rightarrow> event list" where
  \<comment> \<open>\<open>nativeWs.onmessage\<close> on a text frame that arrives at \<open>currentTime\<close>\<close>
  "onmessage json_parse cb currentTime text =
     (if startsWith text ''{'' \<or> startsWith text ''['' then json_message json_parse cb text
      else if includes_js text '','' then comma_message cb currentTime text
      else raw_message cb currentTime text)"

definition receive_all ::
  "(string \<Rightarrow> jsval option) \<Rightarrow> data_callback \<Rightarrow> (int \<times> string) list \<Rightarrow> event list" where
  \<comment> \<open>the frames of a connection, each with its arrival time: the handler runs once for
      each and keeps nothing between two runs\<close>
  "receive_all json_parse cb frames =
     concat (map (\<lambda>(currentTime, text). onmessage json_parse cb currentTime text) frames)"

definition onerror :: "bool \<Rightarrow> event list" where
  \<comment> \<open>\<open>nativeWs.onerror\<close>, the one handler that calls \<open>onError\<close> (when it was supplied)\<close>
  "onerror has_onError = ConsoleError ConnectionError # (if has_onError then [OnError] else [])"

definition samples_of :: "event list \<Rightarrow> sample list" where
  \<comment> \<open>the samples handed to \<open>onEarthquakeData\<close> by the line protocol\<close>
  "samples_of evs =
     concat (map (\<lambda>e. case e of
                         OnEarthquakeData (Batch ps) \<Rightarrow> ps
                       | OnEarthquakeData (Single p) \<Rightarrow> [p]
                       | _ \<Rightarrow> []) evs)"

definition envelopes_of :: "event list \<Rightarrow> (string \<times> jsval) list list" where
  \<comment> \<open>the objects handed to \<open>onEarthquakeData\<close> by the structured envelope\<close>
  "envelopes_of evs =
     concat (map (\<lambda>e. case e of OnEarthquakeData (Envelope kvs) \<Rightarrow> [kvs] | _ \<Rightarrow> []) evs)"

subsection \<open>The senders of test frames\<close>



section \<open>The Socket.IO subscription list\<close>

text \<open>
  The module keeps the socket and the list \<open>subscribers\<close>. Every call of
  \<open>subscribeToEarthquakeData\<close> pushes its callback and attaches one more listener for
  \<open>earthquake-data\<close> to the socket; all these listeners run the same code, so the socket's
  listeners are counted. A subscriber has an identity and a predicate that says on which
  argument it throws; it does not change the module's state.
\<close>

datatype subscriber = Subscriber (sub_id: nat) (sub_throws: "(string \<times> jsval) list \<Rightarrow> bool")

record socket_state =
  connected :: bool
  subscribers :: "subscriber list"
  listeners :: nat

definition initial_state :: socket_state where
  "initial_state = \<lparr> connected = False, subscribers = [], listeners = 0 \<rparr>"

definition connectSocket :: "socket_state \<Rightarrow> socket_state" where
  \<comment> \<open>a new socket, with no listener for \<open>earthquake-data\<close>\<close>
  "connectSocket st = st\<lparr> connected := True, listeners := 0 \<rparr>"

definition disconnectSocket :: "socket_state \<Rightarrow> socket_state" where
  "disconnectSocket st = (if connected st then st\<lparr> connected := False, listeners := 0 \<rparr> else st)"

definition subscribeToEarthquakeData :: "subscriber \<Rightarrow> socket_state \<Rightarrow> socket_state" where
  "subscribeToEarthquakeData callback st =
     (if \<not> connected st then st
      else st\<lparr> subscribers := subscribers st @ [callback], listeners := Suc (listeners st) \<rparr>)"

definition unsubscribeFromEarthquakeData :: "socket_state \<Rightarrow> socket_state" where
  "unsubscribeFromEarthquakeData st =
     (if connected st then st\<lparr> subscribers := [], listeners := 0 \<rparr> else st\<lparr> subscribers := [] \<rparr>)"

datatype call = Call nat "(string \<times> jsval) list"

fun forEach_subscriber :: "subscriber list \<Rightarrow> (string \<times> jsval) list \<Rightarrow> call list \<times> bool" where
  \<comment> \<open>\<open>subscribers.forEach(cb => cb(processedData))\<close>: the calls made, and whether an
      exception left the loop\<close>
  "forEach_subscriber [] processedData = ([], False)"
| "forEach_subscriber (cb # cbs) processedData =
     (if sub_throws cb processedData then ([Call (sub_id cb) processedData], True)
      else (case forEach_subscriber cbs processedData of
              (calls, thrown) \<Rightarrow> (Call (sub_id cb) processedData # calls, thrown)))"

definition earthquake_listener :: "subscriber list \<Rightarrow> jsval \<Rightarrow> call list \<times> bool" where
  \<comment> \<open>the listener attached by \<open>subscribeToEarthquakeData\<close>; it reads the module's list
      when it runs. Reading \<open>data.amplitude\<close> of \<open>null\<close> is a TypeError.\<close>
  "earthquake_listener subs data =
     (if data = VNull then ([], True)
      else forEach_subscriber subs (normalize_amplitude (spread_props data)))"

fun run_listeners :: "bool \<Rightarrow> nat \<Rightarrow> subscriber list \<Rightarrow> jsval \<Rightarrow> call list" where
  \<comment> \<open>the socket's emitter calls the attached listeners in turn. The emitter belongs to
      socket.io-client: \<open>goes_on\<close> says whether it goes on to the next listener after one
      has thrown.\<close>
  "run_listeners goes_on 0 subs data = []"
| "run_listeners goes_on (Suc n) subs data =
     (case earthquake_listener subs data of
        (calls, thrown) \<Rightarrow>
          if thrown \<and> \<not> goes_on then calls
          else calls @ run_listeners goes_on n subs data)"

definition receive_earthquake_data :: "bool \<Rightarrow> socket_state \<Rightarrow> jsval \<Rightarrow> call list" where
  \<comment> \<open>one incoming \<open>earthquake-data\<close> message\<close>
  "receive_earthquake_data goes_on st data =
     (if connected st then run_listeners goes_on (listeners st) (subscribers st) data else [])"

definition calls_of :: "nat \<Rightarrow> call list \<Rightarrow> nat" where
  \<comment> \<open>how many times the subscriber \<open>i\<close> was called\<close>
  "calls_of i calls = length (filter (\<lambda>c. case c of Call j d \<Rightarrow> j = i) calls)"

section \<open>The serial port service\<close>

subsection \<open>Decoding a chunk\<close>








subsection \<open>The read loop and \<open>closePort\<close>\<close>



datatype promise = Resolved | Rejected




text \<open>
  The service's fields. \<open>closePort\<close> awaits the promise of the read loop, so it returns
  only once the loop has; what \<open>reader.cancel()\<close> and \<open>port.close()\<close> do belongs to the
  platform, and whether each succeeds is given.
\<close>

record serial_state =
  port :: bool
  reader :: bool
  readLoopPromise :: "promise option"
  keepReading :: bool

definition startReading :: "bool \<Rightarrow> promise \<Rightarrow> serial_state \<Rightarrow> bool \<times> serial_state" where
  \<comment> \<open>\<open>getReader_ok\<close>: whether \<open>port.readable.getReader()\<close> succeeds; \<open>outcome\<close>: how the
      promise of the loop it starts is settled in the end\<close>
  "startReading getReader_ok outcome st =
     (if \<not> port st then (False, st)
      else if \<not> getReader_ok then (False, st\<lparr> keepReading := True \<rparr>)
      else (True, st\<lparr> keepReading := True, reader := True, readLoopPromise := Some outcome \<rparr>))"






section \<open>Properties of the message handler: the structured envelope\<close>

lemma map_of_set_prop: "map_of (set_prop k v kvs) k = Some v"
  by (induction kvs) auto

lemma parseFloat_3_5: "parseFloat ''3.5'' = Num (7 / 2)"
  by (simp add: parseFloat_def unsigned_literal_def is_ws_def is_digit_def digits_val_def
      digit_val_def scale10_def exponent_part_def)

lemma parseFloat_abc: "parseFloat ''abc'' = NaN"
  by (simp add: parseFloat_def unsigned_literal_def is_ws_def is_digit_def)

text \<open>
  Claim C2, as the code has it. For an envelope of type \<open>earthquake-data\<close> whose payload
  is an object with a string amplitude, the callback receives one object, the payload
  with its amplitude normalised: the amplitude is the number \<open>parseFloat\<close> reads from
  the string when there is one, and the original string otherwise (the code keeps the
  original value when the conversion gives \<open>NaN\<close>).
\<close>

theorem envelope_amplitude:
  assumes "startsWith text ''{'' \<or> startsWith text ''[''"
    and "json_parse text = Some (VObj kvs)"
    and "map_of kvs ''type'' = Some (VStr ''earthquake-data'')"
    and "map_of kvs ''payload'' = Some (VObj props)"
    and "map_of props ''amplitude'' = Some (VStr s)"
  shows "envelopes_of (onmessage json_parse (Some throws) t text) = [normalize_amplitude props]
       \<and> map_of (normalize_amplitude props) ''amplitude''
           = Some (if isNaN (parseFloat s) then VStr s else VNum (parseFloat s))"
  using assms
  by (auto simp: onmessage_def json_message_def envelopes_of_def deliver_def truthy_def
      spread_props_def normalize_amplitude_def map_of_set_prop Let_def)

text \<open>
  The example of claim C2: the envelope with the amplitude \<open>"3.5"\<close> gives one object
  whose amplitude is the number 3.5.
\<close>

theorem envelope_amplitude_witness:
  \<open>envelopes_of
     (onmessage
        [''{"type":"earthquake-data","payload":{"amplitude":"3.5"}}'' \<mapsto>
           VObj [(''type'', VStr ''earthquake-data''),
                 (''payload'', VObj [(''amplitude'', VStr ''3.5'')])]]
        (Some (\<lambda>p. False)) 0
        ''{"type":"earthquake-data","payload":{"amplitude":"3.5"}}'')
   = [[(''amplitude'', VNum (Num (7 / 2)))]]\<close>
  using envelope_amplitude
    [of \<open>''{"type":"earthquake-data","payload":{"amplitude":"3.5"}}''\<close>
        \<open>[''{"type":"earthquake-data","payload":{"amplitude":"3.5"}}'' \<mapsto>
           VObj [(''type'', VStr ''earthquake-data''),
                 (''payload'', VObj [(''amplitude'', VStr ''3.5'')])]]\<close>
        "[(''type'', VStr ''earthquake-data''), (''payload'', VObj [(''amplitude'', VStr ''3.5'')])]"
        "[(''amplitude'', VStr ''3.5'')]" "''3.5''" "\<lambda>p. False" 0]
  by (simp add: startsWith_def normalize_amplitude_def parseFloat_3_5 isNaN_def)

text \<open>
  Claim C2 as stated fails: the envelope whose payload amplitude is the string \<open>"abc"\<close>
  reaches the callback with the amplitude still the string \<open>"abc"\<close>.
\<close>

theorem envelope_amplitude_counterexample:
  \<open>envelopes_of
     (onmessage
        [''{"type":"earthquake-data","payload":{"amplitude":"abc"}}'' \<mapsto>
           VObj [(''type'', VStr ''earthquake-data''),
                 (''payload'', VObj [(''amplitude'', VStr ''abc'')])]]
        (Some (\<lambda>p. False)) 0
        ''{"type":"earthquake-data","payload":{"amplitude":"abc"}}'')
   = [[(''amplitude'', VStr ''abc'')]]\<close>
  by (simp add: onmessage_def json_message_def envelopes_of_def deliver_def truthy_def
      spread_props_def normalize_amplitude_def startsWith_def parseFloat_abc isNaN_def)

text \<open>
  Claim C3, as the code has it. A text that starts with \<open>{\<close> or \<open>[\<close> and that
  \<open>JSON.parse\<close> rejects is logged with \<open>console.error\<close> and nothing else happens: no
  sample and no envelope reaches the data callback, \<open>onError\<close> is not called, and the
  frames before and after it are handled as if it were not there.
\<close>

theorem malformed_json_only_logged:
  assumes "startsWith text ''{'' \<or> startsWith text ''[''" and "json_parse text = None"
  shows "onmessage json_parse cb t text = [ConsoleError ParseJsonFailed]
       \<and> OnError \<notin> set (onmessage json_parse cb t text)
       \<and> samples_of (onmessage json_parse cb t text) = []
       \<and> envelopes_of (onmessage json_parse cb t text) = []
       \<and> receive_all json_parse cb (before @ (t, text) # after)
           = receive_all json_parse cb before @ [ConsoleError ParseJsonFailed]
             @ receive_all json_parse cb after"
  using assms
  by (simp add: onmessage_def json_message_def receive_all_def samples_of_def envelopes_of_def)

text \<open>Claim C3 at the frame \<open>{bad\<close>, between the frames \<open>1.5\<close> and \<open>abc\<close>.\<close>

theorem malformed_json_only_logged_witness:
  "onmessage Map.empty (Some (\<lambda>p. False)) 5 ''{bad'' = [ConsoleError ParseJsonFailed]
   \<and> receive_all Map.empty (Some (\<lambda>p. False)) ([(0, ''1.5'')] @ (5, ''{bad'') # [(9, ''abc'')])
      = receive_all Map.empty (Some (\<lambda>p. False)) [(0, ''1.5'')] @ [ConsoleError ParseJsonFailed]
        @ receive_all Map.empty (Some (\<lambda>p. False)) [(9, ''abc'')]"
  using malformed_json_only_logged
    [of "''{bad''" Map.empty "Some (\<lambda>p. False)" 5 "[(0, ''1.5'')]" "[(9, ''abc'')]"]
  by (simp add: startsWith_def)

text \<open>
  Claim C3 as stated fails: on the malformed frame \<open>{bad\<close> the handler's only call is
  \<open>console.error\<close>; the error callback is not called.
\<close>

theorem malformed_json_counterexample:
  "onmessage Map.empty (Some (\<lambda>p. False)) 0 ''{bad'' = [ConsoleError ParseJsonFailed]
   \<and> OnError \<notin> set (onmessage Map.empty (Some (\<lambda>p. False)) 0 ''{bad'')"
  by (simp add: onmessage_def json_message_def startsWith_def)

section \<open>Properties of the Socket.IO subscription list\<close>

lemma forEach_calls:
  "fst (forEach_subscriber subs pd)
     = map (\<lambda>cb. Call (sub_id cb) pd)
         (takeWhile (\<lambda>cb. \<not> sub_throws cb pd) subs @ take 1 (dropWhile (\<lambda>cb. \<not> sub_throws cb pd) subs))"
  by (induction subs) (auto split: prod.splits)

lemma forEach_no_throw:
  "\<forall>cb\<in>set subs. \<not> sub_throws cb pd \<Longrightarrow>
   forEach_subscriber subs pd = (map (\<lambda>cb. Call (sub_id cb) pd) subs, False)"
  by (induction subs) (auto split: prod.splits)

lemma fold_subscribe:
  "connected st \<Longrightarrow>
   fold subscribeToEarthquakeData cbs st
     = st\<lparr> subscribers := subscribers st @ cbs, listeners := listeners st + length cbs \<rparr>"
  by (induction cbs arbitrary: st) (auto simp: subscribeToEarthquakeData_def)

lemma run_listeners_no_throw:
  assumes "data \<noteq> VNull"
    and "\<forall>cb\<in>set subs. \<not> sub_throws cb (normalize_amplitude (spread_props data))"
  shows "run_listeners goes_on n subs data
     = concat (replicate n (map (\<lambda>cb. Call (sub_id cb) (normalize_amplitude (spread_props data))) subs))"
  using assms by (induction n) (auto simp: earthquake_listener_def forEach_no_throw)

lemma calls_of_append: "calls_of i (xs @ ys) = calls_of i xs + calls_of i ys"
  by (simp add: calls_of_def)

lemma calls_of_concat_replicate: "calls_of i (concat (replicate n xs)) = n * calls_of i xs"
  by (induction n) (auto simp: calls_of_append calls_of_def)

lemma calls_of_absent:
  "i \<notin> sub_id ` set subs \<Longrightarrow> calls_of i (map (\<lambda>c. Call (sub_id c) pd) subs) = 0"
  by (induction subs) (auto simp: calls_of_def)

lemma calls_of_map_distinct:
  "distinct (map sub_id subs) \<Longrightarrow> cb \<in> set subs \<Longrightarrow>
   calls_of (sub_id cb) (map (\<lambda>c. Call (sub_id c) pd) subs) = 1"
proof (induction subs)
  case Nil
  then show ?case by simp
next
  case (Cons a subs)
  show ?case
  proof (cases "cb = a")
    case True
    have "sub_id a \<notin> sub_id ` set subs" using Cons.prems by simp
    then have "calls_of (sub_id a) (map (\<lambda>c. Call (sub_id c) pd) subs) = 0"
      by (rule calls_of_absent)
    with True show ?thesis by (simp add: calls_of_def)
  next
    case False
    with Cons.prems have in_subs: "cb \<in> set subs" and "sub_id a \<noteq> sub_id cb" by auto
    with Cons show ?thesis by (simp add: calls_of_def)
  qed
qed

text \<open>
  Claim C1, as the code has it. One run of the listener calls the registered callbacks
  in the order of their registration, each with the processed data, up to and including
  the first callback that throws; the callbacks registered after that one are not called
  by this run. When no callback throws, all of them are called and the run ends normally.
\<close>

theorem fan_out_stops_at_first_throw:
  assumes "data \<noteq> VNull"
  shows "fst (earthquake_listener subs data)
     = map (\<lambda>cb. Call (sub_id cb) (normalize_amplitude (spread_props data)))
         (takeWhile (\<lambda>cb. \<not> sub_throws cb (normalize_amplitude (spread_props data))) subs
          @ take 1 (dropWhile (\<lambda>cb. \<not> sub_throws cb (normalize_amplitude (spread_props data))) subs))
     \<and> ((\<forall>cb\<in>set subs. \<not> sub_throws cb (normalize_amplitude (spread_props data))) \<longrightarrow>
          earthquake_listener subs data
            = (map (\<lambda>cb. Call (sub_id cb) (normalize_amplitude (spread_props data))) subs, False))"
  using assms by (simp add: earthquake_listener_def forEach_calls forEach_no_throw)

text \<open>
  Claim C1 with three subscribers, the second of which throws: the first two are called,
  the third is not.
\<close>

theorem fan_out_stops_at_first_throw_witness:
  "fst (earthquake_listener
          [Subscriber 0 (\<lambda>d. False), Subscriber 1 (\<lambda>d. True), Subscriber 2 (\<lambda>d. False)]
          (VObj [(''amplitude'', VNum (Num 1))]))
   = [Call 0 [(''amplitude'', VNum (Num 1))], Call 1 [(''amplitude'', VNum (Num 1))]]"
  using fan_out_stops_at_first_throw
    [of "VObj [(''amplitude'', VNum (Num 1))]"
        "[Subscriber 0 (\<lambda>d. False), Subscriber 1 (\<lambda>d. True), Subscriber 2 (\<lambda>d. False)]"]
  by (simp add: spread_props_def normalize_amplitude_def)

text \<open>
  Claim C1 as stated fails: with two subscribers registered, the first of which throws,
  a message never reaches the second, whether the socket's emitter goes on after a
  listener's exception or not.
\<close>

theorem fan_out_counterexample:
  "calls_of 1 (receive_earthquake_data False
      (subscribeToEarthquakeData (Subscriber 1 (\<lambda>d. False))
        (subscribeToEarthquakeData (Subscriber 0 (\<lambda>d. True)) (connectSocket initial_state)))
      (VObj [(''amplitude'', VNum (Num 1))])) = 0
   \<and> calls_of 1 (receive_earthquake_data True
      (subscribeToEarthquakeData (Subscriber 1 (\<lambda>d. False))
        (subscribeToEarthquakeData (Subscriber 0 (\<lambda>d. True)) (connectSocket initial_state)))
      (VObj [(''amplitude'', VNum (Num 1))])) = 0"
  by (simp add: calls_of_def receive_earthquake_data_def subscribeToEarthquakeData_def
      connectSocket_def initial_state_def earthquake_listener_def spread_props_def
      normalize_amplitude_def numeral_2_eq_2)

text \<open>
  Claim C9. After the callbacks \<open>cbs\<close> have subscribed to a freshly connected socket, the
  socket has as many listeners as there were calls of \<open>subscribeToEarthquakeData\<close>, and one
  incoming message calls each subscriber once for each listener: \<open>length cbs\<close> times
  (the subscribers being distinct and none of them throwing).
\<close>

theorem each_subscriber_called_once_per_listener:
  assumes "data \<noteq> VNull"
    and "distinct (map sub_id cbs)"
    and "\<forall>cb\<in>set cbs. \<not> sub_throws cb (normalize_amplitude (spread_props data))"
    and "cb \<in> set cbs"
  shows "listeners (fold subscribeToEarthquakeData cbs (connectSocket initial_state)) = length cbs
       \<and> subscribers (fold subscribeToEarthquakeData cbs (connectSocket initial_state)) = cbs
       \<and> calls_of (sub_id cb)
           (receive_earthquake_data goes_on
              (fold subscribeToEarthquakeData cbs (connectSocket initial_state)) data)
         = length cbs"
  using assms
  by (simp add: fold_subscribe connectSocket_def initial_state_def receive_earthquake_data_def
      run_listeners_no_throw calls_of_concat_replicate calls_of_map_distinct)

text \<open>Claim C9 after two subscriptions: the second subscriber is called twice.\<close>

theorem each_subscriber_called_once_per_listener_witness:
  "calls_of 1
     (receive_earthquake_data False
        (fold subscribeToEarthquakeData [Subscriber 0 (\<lambda>d. False), Subscriber 1 (\<lambda>d. False)]
           (connectSocket initial_state))
        (VObj [(''amplitude'', VNum (Num 1))]))
   = 2"
  using each_subscriber_called_once_per_listener
    [of "VObj [(''amplitude'', VNum (Num 1))]"
        "[Subscriber 0 (\<lambda>d. False), Subscriber 1 (\<lambda>d. False)]"
        "Subscriber 1 (\<lambda>d. False)" False]
  by simp

section \<open>Properties of the serial port service\<close>





















section \<open>Properties of the string primitives\<close>

lemma split_js_sep_first:
  assumes "sep \<noteq> []"
  shows "split_js (sep @ r) sep = [] # split_js r sep"
proof -
  obtain c cs where sep: "sep = c # cs" using assms by (cases sep) auto
  have "split_js ((c # cs) @ r) (c # cs) = [] # split_js (drop (length (c # cs) - 1) (cs @ r)) (c # cs)"
    by simp
  then show ?thesis by (simp add: sep)
qed

lemma split_js_nonempty: "sep \<noteq> [] \<Longrightarrow> split_js s sep \<noteq> []"
  by (induction s sep rule: split_js.induct) (auto split: list.splits)

lemma split_js_step:
  assumes "sep \<noteq> []" and "\<not> prefix sep (c # cs)"
  shows "split_js (c # cs) sep = (c # hd (split_js cs sep)) # tl (split_js cs sep)"
  using assms split_js_nonempty [of sep cs] by (auto split: list.splits)

lemma prefix_within:
  assumes "prefix sep (x # u @ sep @ r)"
  shows "prefix sep (x # u @ butlast sep)"
proof -
  have "sep = take (length sep) (x # u @ sep @ r)"
    using assms by (metis append_eq_conv_conj prefix_def)
  also have "\<dots> = take (length sep) ((x # u) @ (sep @ r))" by simp
  also have "\<dots> = take (length sep) (x # u) @ take (length sep - length (x # u)) (sep @ r)"
    by (simp only: take_append)
  also have "take (length sep - length (x # u)) (sep @ r) = take (length sep - length (x # u)) (butlast sep)"
  proof (cases "sep = []")
    case True
    then show ?thesis by simp
  next
    case False
    then have "length sep - length (x # u) < length sep" by (cases sep) auto
    then show ?thesis by (simp add: take_butlast)
  qed
  also have "take (length sep) (x # u) @ take (length sep - length (x # u)) (butlast sep)
      = take (length sep) ((x # u) @ butlast sep)"
    by (simp only: take_append)
  finally have "sep = take (length sep) (x # u @ butlast sep)" by simp
  then show ?thesis by (metis take_is_prefix)
qed

lemma split_js_first_piece:
  assumes "sep \<noteq> []" and "\<not> includes_js (u @ butlast sep) sep"
  shows "split_js (u @ sep @ r) sep = u # split_js r sep"
  using assms(2)
proof (induction u)
  case Nil
  show ?case using assms(1) by (simp add: split_js_sep_first)
next
  case (Cons x u)
  from Cons.prems have np: "\<not> prefix sep (x # u @ butlast sep)"
    and ni: "\<not> includes_js (u @ butlast sep) sep" by auto
  from np have "\<not> prefix sep (x # u @ sep @ r)" using prefix_within [of sep x u r] by auto
  then have "split_js ((x # u) @ sep @ r) sep
      = (x # hd (split_js (u @ sep @ r) sep)) # tl (split_js (u @ sep @ r) sep)"
    using split_js_step [OF assms(1)] by simp
  then show ?case using Cons.IH [OF ni] by simp
qed

lemma split_js_no_sep:
  assumes "sep \<noteq> []" and "\<not> includes_js s sep"
  shows "split_js s sep = [s]"
  using assms(2)
proof (induction s)
  case Nil
  then show ?case using assms(1) by simp
next
  case (Cons x s)
  then have "\<not> prefix sep (x # s)" and "\<not> includes_js s sep" by auto
  then show ?case using split_js_step [OF assms(1), of x s] Cons.IH by simp
qed

lemma includes_js_char: "includes_js s [c] \<longleftrightarrow> c \<in> set s"
  by (induction s) auto

lemma includes_js_append_pair:
  "includes_js (u @ v) [p, q] \<longleftrightarrow>
     includes_js u [p, q] \<or> includes_js v [p, q] \<or> (u \<noteq> [] \<and> last u = p \<and> v \<noteq> [] \<and> hd v = q)"
proof (induction u)
  case Nil
  then show ?case by simp
next
  case (Cons x u)
  show ?case
  proof (cases u)
    case Nil
    then show ?thesis by (cases v) auto
  next
    case (Cons y u')
    with Cons.IH show ?thesis by auto
  qed
qed


lemma includes_js_pair_here: "includes_js (u @ [p, q] @ v) [p, q]"
  by (induction u) auto

lemma includes_js_char_here: "includes_js (u @ c # v) [c]"
  by (simp add: includes_js_char)

section \<open>Properties of the message handler: channels and timestamps\<close>

lemma map_filter_append: "List.map_filter f (xs @ ys) = List.map_filter f xs @ List.map_filter f ys"
  by (simp add: List.map_filter_def)

lemma timestamp_point_of:
  "point_of A w md n (i, p) = Some s \<Longrightarrow> timestamp s = A - (int n - 1 - int i) * 10"
  by (auto simp: point_of_def Let_def split: if_splits)

lemma point_of_None: "point_of A w md n (i, p) = None \<longleftrightarrow> isNaN (parseFloat p)"
  by (simp add: point_of_def Let_def)

lemma timestamps_enumerate:
  "map timestamp (List.map_filter (point_of A w md n) (enumerate k toks))
     = map (\<lambda>(i, p). A - (int n - 1 - int i) * 10)
         (filter (\<lambda>(i, p). \<not> isNaN (parseFloat p)) (enumerate k toks))"
proof (induction toks arbitrary: k)
  case Nil
  then show ?case by (simp add: List.map_filter_def)
next
  case (Cons p toks)
  show ?case
  proof (cases "isNaN (parseFloat p)")
    case True
    then have "point_of A w md n (k, p) = None" by (simp add: point_of_None)
    then show ?thesis using True Cons.IH [of "Suc k"] by simp
  next
    case False
    then obtain s where s: "point_of A w md n (k, p) = Some s"
      using point_of_None [of A w md n k p] by (cases "point_of A w md n (k, p)") auto
    then show ?thesis
      using False Cons.IH [of "Suc k"] timestamp_point_of [OF s]
      by simp
  qed
qed

lemma timestamps_channel:
  "map timestamp (channel_points A w md toks)
     = map (\<lambda>(i, p). A - (int (length toks) - 1 - int i) * 10)
         (filter (\<lambda>(i, p). \<not> isNaN (parseFloat p)) (enumerate 0 toks))"
  by (simp add: channel_points_def timestamps_enumerate)

lemma enumerate_sorted: "sorted_wrt (\<lambda>x y. fst x < fst y) (enumerate k xs)"
  by (induction xs arbitrary: k) (auto simp: in_set_enumerate_eq)

lemma timestamps_increasing:
  "sorted_wrt (<) (map timestamp (channel_points A w md toks))"
proof -
  have "sorted_wrt (\<lambda>x y. fst x < fst y) (filter (\<lambda>(i, p). \<not> isNaN (parseFloat p)) (enumerate 0 toks))"
    by (rule sorted_wrt_filter) (rule enumerate_sorted)
  then have "sorted_wrt (\<lambda>x y. (case x of (i, p) \<Rightarrow> A - (int (length toks) - 1 - int i) * 10)
                           < (case y of (i, p) \<Rightarrow> A - (int (length toks) - 1 - int i) * 10))
        (filter (\<lambda>(i, p). \<not> isNaN (parseFloat p)) (enumerate 0 toks))"
    by (rule sorted_wrt_mono_rel [rotated]) auto
  then show ?thesis
    by (simp add: timestamps_channel sorted_wrt_map)
qed

lemma filter_enumerate_all:
  "\<forall>p\<in>set toks. \<not> isNaN (parseFloat p) \<Longrightarrow>
   filter (\<lambda>(i, p). \<not> isNaN (parseFloat p)) (enumerate k toks) = enumerate k toks"
  by (induction toks arbitrary: k) auto

lemma map_index_enumerate:
  "map (\<lambda>(i, p). f i) (enumerate k xs) = map f [k..<k + length xs]"
proof -
  have "map (\<lambda>(i, p). f i) (enumerate k xs) = map (f \<circ> fst) (enumerate k xs)"
    by (simp add: case_prod_unfold o_def)
  also have "\<dots> = map f (map fst (enumerate k xs))"
    by (simp only: map_map)
  also have "\<dots> = map f [k..<k + length xs]"
    by (simp only: map_fst_enumerate)
  finally show ?thesis .
qed

lemma timestamps_all_numeric:
  assumes "\<forall>p\<in>set toks. \<not> isNaN (parseFloat p)"
  shows "map timestamp (channel_points A w md toks)
     = map (\<lambda>i. A - (int (length toks) - 1 - int i) * 10) [0..<length toks]"
  using assms map_index_enumerate [of "\<lambda>i. A - (int (length toks) - 1 - int i) * 10" 0 toks]
  by (simp only: timestamps_channel filter_enumerate_all add_0)

lemma last_timestamp:
  assumes "toks \<noteq> []" and "\<not> isNaN (parseFloat (last toks))"
  shows "channel_points A w md toks \<noteq> []
       \<and> timestamp (last (channel_points A w md toks)) = A"
proof -
  obtain ts p where toks: "toks = ts @ [p]" using assms(1) by (metis rev_exhaust)
  with assms(2) have num: "\<not> isNaN (parseFloat p)" by simp
  then obtain s where s: "point_of A w md (length toks) (length ts, p) = Some s"
    using point_of_None [of A w md "length toks" "length ts" p]
    by (cases "point_of A w md (length toks) (length ts, p)") auto
  have "channel_points A w md toks
      = List.map_filter (point_of A w md (length toks)) (enumerate 0 ts) @ [s]"
    using s by (simp add: channel_points_def toks enumerate_append_eq map_filter_append)
  moreover have "timestamp s = A"
    using timestamp_point_of [OF s] by (simp add: toks)
  ultimately show ?thesis by simp
qed

lemma samples_of_append: "samples_of (xs @ ys) = samples_of xs @ samples_of ys"
  by (simp add: samples_of_def)

lemma samples_of_warnings: "samples_of (warnings ps) = []"
  by (induction ps) (auto simp: samples_of_def warnings_def)

lemma samples_of_deliver:
  "samples_of (if length ps > 0 then deliver (Some throws) (Batch ps) err else []) = ps"
  by (simp add: samples_of_def deliver_def)

lemma samples_of_x_message:
  "samples_of (x_message (Some throws) A md msg) =
     (case split_waveforms msg of
        Triple xs ys zs \<Rightarrow>
          channel_points A (Some ''X'')
            (md(''dataType'' \<mapsto> MStr ''triple-waveform'', ''secondWaveform'' \<mapsto> MBool True,
                ''thirdWaveform'' \<mapsto> MBool True)) xs
          @ channel_points A (Some ''Y'')
              (md(''dataType'' \<mapsto> MStr ''triple-waveform'', ''secondWaveform'' \<mapsto> MBool True,
                  ''thirdWaveform'' \<mapsto> MBool True)) ys
          @ channel_points A (Some ''Z'')
              (md(''dataType'' \<mapsto> MStr ''triple-waveform'', ''secondWaveform'' \<mapsto> MBool True,
                  ''thirdWaveform'' \<mapsto> MBool True)) zs
      | Dual xs ys \<Rightarrow>
          channel_points A (Some ''X'')
            (md(''dataType'' \<mapsto> MStr ''dual-waveform'', ''secondWaveform'' \<mapsto> MBool True)) xs
          @ channel_points A (Some ''Y'')
              (md(''dataType'' \<mapsto> MStr ''dual-waveform'', ''secondWaveform'' \<mapsto> MBool True)) ys
      | OnlyX dataPoints \<Rightarrow> []
      | TypeError \<Rightarrow> [])"
  unfolding x_message_def Let_def
  by (cases "split_waveforms msg")
     (simp_all only: waveforms.case samples_of_append samples_of_warnings samples_of_deliver
        append_Nil, simp_all add: samples_of_def channel_points_def)

lemmas parse_defs = parseFloat_def unsigned_literal_def is_ws_def is_digit_def digits_val_def
  digit_val_def scale10_def exponent_part_def isNaN_def negate_def

lemma samples_of_unlabeled:
  "samples_of (unlabeled_message (Some throws) A md msg) = channel_points A None md (tokens_of msg)"
  by (simp add: unlabeled_message_def Let_def samples_of_append samples_of_warnings
      samples_of_deliver del: length_greater_0_conv)

lemma parseFloat_1_0: "parseFloat ''1.0'' = Num 1"
  by (simp add: parse_defs)
lemma parseFloat_2_0: "parseFloat ''2.0'' = Num 2"
  by (simp add: parse_defs)
lemma parseFloat_0_5: "parseFloat ''0.5'' = Num (1 / 2)"
  by (simp add: parse_defs)

lemma tokens_1_abc: "tokens_of ''1.0,abc'' = [''1.0'', ''abc'']"
  by (simp add: tokens_of_def trim_js_def is_ws_def)

text \<open>
  Claim C5, as the code has it. In a channel of \<open>n\<close> tokens that arrives at \<open>A\<close>, the sample
  made from the token at index \<open>i\<close> has the timestamp \<open>A - (n - 1 - i) * 10\<close>; \<open>n\<close> and \<open>i\<close>
  count the tokens before those that are not numbers are dropped. The timestamps of a
  channel increase strictly. When every token is a number the batch has \<open>n\<close> samples and
  sample \<open>i\<close> has the timestamp \<open>A - (n - 1 - i) * 10\<close>; when the last token is a number
  the last sample has the timestamp \<open>A\<close>. The channels of one frame are all stamped from
  the same \<open>A\<close>.
\<close>

theorem timestamps_backdated:
  "map timestamp (channel_points A w md toks)
     = map (\<lambda>(i, p). A - (int (length toks) - 1 - int i) * 10)
         (filter (\<lambda>(i, p). \<not> isNaN (parseFloat p)) (enumerate 0 toks))
   \<and> sorted_wrt (<) (map timestamp (channel_points A w md toks))
   \<and> ((\<forall>p\<in>set toks. \<not> isNaN (parseFloat p)) \<longrightarrow>
        map timestamp (channel_points A w md toks)
          = map (\<lambda>i. A - (int (length toks) - 1 - int i) * 10) [0..<length toks])
   \<and> (toks \<noteq> [] \<and> \<not> isNaN (parseFloat (last toks)) \<longrightarrow>
        channel_points A w md toks \<noteq> [] \<and> timestamp (last (channel_points A w md toks)) = A)
   \<and> samples_of (unlabeled_message (Some throws) A md msg) = channel_points A None md (tokens_of msg)
   \<and> (\<forall>xs ys zs. split_waveforms msg = Triple xs ys zs \<longrightarrow>
        (\<exists>md'. samples_of (x_message (Some throws) A md msg)
           = channel_points A (Some ''X'') md' xs @ channel_points A (Some ''Y'') md' ys
             @ channel_points A (Some ''Z'') md' zs))
   \<and> (\<forall>xs ys. split_waveforms msg = Dual xs ys \<longrightarrow>
        (\<exists>md'. samples_of (x_message (Some throws) A md msg)
           = channel_points A (Some ''X'') md' xs @ channel_points A (Some ''Y'') md' ys))"
proof (intro conjI)
  show "map timestamp (channel_points A w md toks)
     = map (\<lambda>(i, p). A - (int (length toks) - 1 - int i) * 10)
         (filter (\<lambda>(i, p). \<not> isNaN (parseFloat p)) (enumerate 0 toks))"
    by (rule timestamps_channel)
  show "sorted_wrt (<) (map timestamp (channel_points A w md toks))"
    by (rule timestamps_increasing)
  show "(\<forall>p\<in>set toks. \<not> isNaN (parseFloat p)) \<longrightarrow>
        map timestamp (channel_points A w md toks)
          = map (\<lambda>i. A - (int (length toks) - 1 - int i) * 10) [0..<length toks]"
    using timestamps_all_numeric by blast
  show "toks \<noteq> [] \<and> \<not> isNaN (parseFloat (last toks)) \<longrightarrow>
        channel_points A w md toks \<noteq> [] \<and> timestamp (last (channel_points A w md toks)) = A"
    using last_timestamp by blast
  show "samples_of (unlabeled_message (Some throws) A md msg) = channel_points A None md (tokens_of msg)"
    by (rule samples_of_unlabeled)
  show "\<forall>xs ys zs. split_waveforms msg = Triple xs ys zs \<longrightarrow>
        (\<exists>md'. samples_of (x_message (Some throws) A md msg)
           = channel_points A (Some ''X'') md' xs @ channel_points A (Some ''Y'') md' ys
             @ channel_points A (Some ''Z'') md' zs)"
    by (auto simp: samples_of_x_message)
  show "\<forall>xs ys. split_waveforms msg = Dual xs ys \<longrightarrow>
        (\<exists>md'. samples_of (x_message (Some throws) A md msg)
           = channel_points A (Some ''X'') md' xs @ channel_points A (Some ''Y'') md' ys)"
    by (auto simp: samples_of_x_message)
qed

text \<open>Claim C5 for a channel of three numeric tokens that arrives at 1000.\<close>

theorem timestamps_backdated_witness:
  "map timestamp (channel_points 1000 None Map.empty [''1.0'', ''2.0'', ''0.5''])
     = [980, 990, 1000]
   \<and> timestamp (last (channel_points 1000 None Map.empty [''1.0'', ''2.0'', ''0.5''])) = 1000"
  using timestamps_backdated [of 1000 None Map.empty "[''1.0'', ''2.0'', ''0.5'']"]
  by (simp add: parseFloat_1_0 parseFloat_2_0 parseFloat_0_5 isNaN_def upt_rec)

text \<open>
  Claim C5 as stated fails: the frame \<open>1.0,abc\<close> that arrives at 1000 gives a batch of one
  sample, whose timestamp is 990 and not the arrival time.
\<close>

theorem timestamps_counterexample:
  "map timestamp (samples_of (onmessage Map.empty (Some (\<lambda>p. False)) 1000 ''1.0,abc'')) = [990]"
  by (simp add: onmessage_def comma_message_def meta_prefix_def startsWith_def samples_of_unlabeled
      tokens_1_abc timestamps_channel parseFloat_1_0 parseFloat_abc isNaN_def enumerate_eq_zip upt_rec)

section \<open>Properties of the message handler: frames with markers\<close>

lemma hd_split_js: "sep \<noteq> [] \<Longrightarrow> nth_part (split_js s sep) 0 = Some (hd (split_js s sep))"
  using split_js_nonempty [of sep s] by (cases "split_js s sep") (auto simp: nth_part_def)

lemma split_two_Y:
  assumes "\<not> includes_js a '',Y''" and "\<not> includes_js b '',Y''"
  shows "split_js (''X'' @ a @ '',Y'' @ b @ '',Y'' @ c) '',Y''
     = (''X'' @ a) # b # split_js c '',Y''"
proof -
  have "split_js ((''X'' @ a) @ '',Y'' @ (b @ '',Y'' @ c)) '',Y''
      = (''X'' @ a) # split_js (b @ '',Y'' @ c) '',Y''"
    by (rule split_js_first_piece) (use assms(1) in \<open>simp_all add: includes_js_append_pair\<close>)
  moreover have "split_js (b @ '',Y'' @ c) '',Y'' = b # split_js c '',Y''"
    by (rule split_js_first_piece) (use assms(2) in \<open>simp_all add: includes_js_append_pair\<close>)
  ultimately show ?thesis by simp
qed

lemma split_one_Y:
  assumes "\<not> includes_js a '',Y''" and "\<not> includes_js b '',Y''"
  shows "split_js (''X'' @ a @ '',Y'' @ b) '',Y'' = [''X'' @ a, b]"
proof -
  have "split_js ((''X'' @ a) @ '',Y'' @ b) '',Y'' = (''X'' @ a) # split_js b '',Y''"
    by (rule split_js_first_piece) (use assms(1) in \<open>simp_all add: includes_js_append_pair\<close>)
  moreover have "split_js b '',Y'' = [b]"
    by (rule split_js_no_sep) (use assms(2) in simp_all)
  ultimately show ?thesis by simp
qed

lemma dual_two_Y:
  assumes "\<not> includes_js a '',Y''" and "\<not> includes_js b '',Y''"
    and "\<not> includes_js a '',Z''" and "\<not> includes_js b '',Z''" and "\<not> includes_js c '',Z''"
  shows "split_waveforms (''X'' @ a @ '',Y'' @ b @ '',Y'' @ c) = Dual (tokens_of a) (tokens_of b)"
proof -
  have noZ: "\<not> includes_js (''X'' @ a @ '',Y'' @ b @ '',Y'' @ c) '',Z''"
    using assms(3-5) by (simp add: includes_js_append_pair)
  have hasY: "includes_js (''X'' @ a @ '',Y'' @ b @ '',Y'' @ c) '',Y''"
    using includes_js_pair_here [of "''X'' @ a" "CHR '',''" "CHR ''Y''" "b @ '',Y'' @ c"] by simp
  show ?thesis
    unfolding split_waveforms_def
    by (simp only: noZ hasY if_False if_True split_two_Y [OF assms(1,2)] Let_def)
       (simp add: nth_part_def substring_from_def)
qed

lemma dual_one_Y:
  assumes "\<not> includes_js a '',Y''" and "\<not> includes_js b '',Y''"
    and "\<not> includes_js a '',Z''" and "\<not> includes_js b '',Z''"
  shows "split_waveforms (''X'' @ a @ '',Y'' @ b) = Dual (tokens_of a) (tokens_of b)"
proof -
  have noZ: "\<not> includes_js (''X'' @ a @ '',Y'' @ b) '',Z''"
    using assms(3,4) by (simp add: includes_js_append_pair)
  have hasY: "includes_js (''X'' @ a @ '',Y'' @ b) '',Y''"
    using includes_js_pair_here [of "''X'' @ a" "CHR '',''" "CHR ''Y''" b] by simp
  show ?thesis
    unfolding split_waveforms_def
    by (simp only: noZ hasY if_False if_True split_one_Y [OF assms(1,2)] Let_def)
       (simp add: nth_part_def substring_from_def)
qed

lemma triple_two_Y:
  assumes "\<not> includes_js a '',Y''" and "\<not> includes_js b '',Y''"
    and "\<not> includes_js a '',Z''" and "\<not> includes_js b '',Z''" and "\<not> includes_js c '',Z''"
  shows "split_waveforms (''X'' @ a @ '',Y'' @ b @ '',Y'' @ c @ '',Z'' @ d)
     = Triple (tokens_of a) (tokens_of b) (tokens_of (hd (split_js d '',Z'')))"
proof -
  have hasZ: "includes_js (''X'' @ a @ '',Y'' @ b @ '',Y'' @ c @ '',Z'' @ d) '',Z''"
    using includes_js_pair_here [of "''X'' @ a @ '',Y'' @ b @ '',Y'' @ c" "CHR '',''" "CHR ''Z''" d]
    by simp
  have "split_js ((''X'' @ a @ '',Y'' @ b @ '',Y'' @ c) @ '',Z'' @ d) '',Z''
      = (''X'' @ a @ '',Y'' @ b @ '',Y'' @ c) # split_js d '',Z''"
    by (rule split_js_first_piece) (use assms(3-5) in \<open>simp_all add: includes_js_append_pair\<close>)
  then have parts: "split_js (''X'' @ a @ '',Y'' @ b @ '',Y'' @ c @ '',Z'' @ d) '',Z''
      = (''X'' @ a @ '',Y'' @ b @ '',Y'' @ c) # split_js d '',Z''"
    by simp
  have z: "nth_part ((''X'' @ a @ '',Y'' @ b @ '',Y'' @ c) # split_js d '',Z'') 1
      = Some (hd (split_js d '',Z''))"
    using hd_split_js [of "'',Z''" d] by (simp add: nth_part_def split: if_splits)
  have x: "nth_part ((''X'' @ a @ '',Y'' @ b @ '',Y'' @ c) # split_js d '',Z'') 0
      = Some (''X'' @ a @ '',Y'' @ b @ '',Y'' @ c)"
    by (simp add: nth_part_def)
  show ?thesis
    unfolding split_waveforms_def
    by (simp only: hasZ if_True parts Let_def x z option.case split_two_Y [OF assms(1,2)])
       (simp add: nth_part_def substring_from_def)
qed

lemma triple_one_Y:
  assumes "\<not> includes_js a '',Y''" and "\<not> includes_js b '',Y''"
    and "\<not> includes_js a '',Z''" and "\<not> includes_js b '',Z''"
  shows "split_waveforms (''X'' @ a @ '',Y'' @ b @ '',Z'' @ d)
     = Triple (tokens_of a) (tokens_of b) (tokens_of (hd (split_js d '',Z'')))"
proof -
  have hasZ: "includes_js (''X'' @ a @ '',Y'' @ b @ '',Z'' @ d) '',Z''"
    using includes_js_pair_here [of "''X'' @ a @ '',Y'' @ b" "CHR '',''" "CHR ''Z''" d]
    by simp
  have "split_js ((''X'' @ a @ '',Y'' @ b) @ '',Z'' @ d) '',Z''
      = (''X'' @ a @ '',Y'' @ b) # split_js d '',Z''"
    by (rule split_js_first_piece) (use assms(3,4) in \<open>simp_all add: includes_js_append_pair\<close>)
  then have parts: "split_js (''X'' @ a @ '',Y'' @ b @ '',Z'' @ d) '',Z''
      = (''X'' @ a @ '',Y'' @ b) # split_js d '',Z''"
    by simp
  have z: "nth_part ((''X'' @ a @ '',Y'' @ b) # split_js d '',Z'') 1
      = Some (hd (split_js d '',Z''))"
    using hd_split_js [of "'',Z''" d] by (simp add: nth_part_def split: if_splits)
  have x: "nth_part ((''X'' @ a @ '',Y'' @ b) # split_js d '',Z'') 0
      = Some (''X'' @ a @ '',Y'' @ b)"
    by (simp add: nth_part_def)
  show ?thesis
    unfolding split_waveforms_def
    by (simp only: hasZ if_True parts Let_def x z option.case split_one_Y [OF assms(1,2)])
       (simp add: nth_part_def substring_from_def)
qed

lemma onmessage_X:
  "includes_js (CHR ''X'' # s) '','' \<Longrightarrow>
   onmessage jp cb A (CHR ''X'' # s) = x_message cb A Map.empty (CHR ''X'' # s)"
  by (simp add: onmessage_def comma_message_def startsWith_def meta_prefix_def)

lemma x_message_cong:
  "split_waveforms m = split_waveforms m' \<Longrightarrow> x_message cb A md m = x_message cb A md m'"
  by (simp add: x_message_def)


lemma amplitudes_channel:
  "map amplitude (channel_points A w md toks)
     = filter (\<lambda>a. \<not> isNaN a) (map parseFloat toks)"
proof -
  have "map amplitude (List.map_filter (point_of A w md n) (enumerate k toks))
     = filter (\<lambda>a. \<not> isNaN a) (map parseFloat toks)" for n k
    by (induction toks arbitrary: k) (auto simp: point_of_def Let_def)
  then show ?thesis by (simp add: channel_points_def)
qed

text \<open>
  Claim C10. In a frame that starts with \<open>X\<close> and has \<open>,Y\<close> twice, \<open>a\<close> being the text
  up to the first \<open>,Y\<close>, \<open>b\<close> the text between the two and \<open>c\<close> what follows the second,
  the Y channel is made of the tokens of \<open>b\<close> alone: what the handler does is what it does
  on the frame without \<open>,Y\<close> and \<open>c\<close>. This holds without a Z part and also when a Z
  part follows \<open>c\<close>.
\<close>

theorem extra_Y_parts_dropped:
  assumes "\<not> includes_js a '',Y''" and "\<not> includes_js b '',Y''"
    and "\<not> includes_js a '',Z''" and "\<not> includes_js b '',Z''" and "\<not> includes_js c '',Z''"
  shows "split_waveforms (''X'' @ a @ '',Y'' @ b @ '',Y'' @ c) = Dual (tokens_of a) (tokens_of b)
       \<and> onmessage jp cb A (''X'' @ a @ '',Y'' @ b @ '',Y'' @ c)
           = onmessage jp cb A (''X'' @ a @ '',Y'' @ b)
       \<and> split_waveforms (''X'' @ a @ '',Y'' @ b @ '',Y'' @ c @ '',Z'' @ d)
           = Triple (tokens_of a) (tokens_of b) (tokens_of (hd (split_js d '',Z'')))
       \<and> onmessage jp cb A (''X'' @ a @ '',Y'' @ b @ '',Y'' @ c @ '',Z'' @ d)
           = onmessage jp cb A (''X'' @ a @ '',Y'' @ b @ '',Z'' @ d)"
proof (intro conjI)
  show d2: "split_waveforms (''X'' @ a @ '',Y'' @ b @ '',Y'' @ c) = Dual (tokens_of a) (tokens_of b)"
    by (rule dual_two_Y [OF assms])
  have d1: "split_waveforms (''X'' @ a @ '',Y'' @ b) = Dual (tokens_of a) (tokens_of b)"
    by (rule dual_one_Y [OF assms(1-4)])
  have c2: "includes_js (CHR ''X'' # a @ '',Y'' @ b @ '',Y'' @ c) '',''"
    by (simp add: includes_js_char)
  have c1: "includes_js (CHR ''X'' # a @ '',Y'' @ b) '',''"
    by (simp add: includes_js_char)
  show "onmessage jp cb A (''X'' @ a @ '',Y'' @ b @ '',Y'' @ c)
           = onmessage jp cb A (''X'' @ a @ '',Y'' @ b)"
  proof -
    have "onmessage jp cb A (''X'' @ a @ '',Y'' @ b @ '',Y'' @ c)
        = x_message cb A Map.empty (''X'' @ a @ '',Y'' @ b @ '',Y'' @ c)"
      using onmessage_X [OF c2] by simp
    also have "\<dots> = x_message cb A Map.empty (''X'' @ a @ '',Y'' @ b)"
      by (rule x_message_cong) (simp only: d1 d2)
    also have "\<dots> = onmessage jp cb A (''X'' @ a @ '',Y'' @ b)"
      using onmessage_X [OF c1] by simp
    finally show ?thesis .
  qed
  show t2: "split_waveforms (''X'' @ a @ '',Y'' @ b @ '',Y'' @ c @ '',Z'' @ d)
           = Triple (tokens_of a) (tokens_of b) (tokens_of (hd (split_js d '',Z'')))"
    by (rule triple_two_Y [OF assms])
  have t1: "split_waveforms (''X'' @ a @ '',Y'' @ b @ '',Z'' @ d)
           = Triple (tokens_of a) (tokens_of b) (tokens_of (hd (split_js d '',Z'')))"
    by (rule triple_one_Y [OF assms(1-4)])
  have e2: "includes_js (CHR ''X'' # a @ '',Y'' @ b @ '',Y'' @ c @ '',Z'' @ d) '',''"
    by (simp add: includes_js_char)
  have e1: "includes_js (CHR ''X'' # a @ '',Y'' @ b @ '',Z'' @ d) '',''"
    by (simp add: includes_js_char)
  show "onmessage jp cb A (''X'' @ a @ '',Y'' @ b @ '',Y'' @ c @ '',Z'' @ d)
           = onmessage jp cb A (''X'' @ a @ '',Y'' @ b @ '',Z'' @ d)"
  proof -
    have "onmessage jp cb A (''X'' @ a @ '',Y'' @ b @ '',Y'' @ c @ '',Z'' @ d)
        = x_message cb A Map.empty (''X'' @ a @ '',Y'' @ b @ '',Y'' @ c @ '',Z'' @ d)"
      using onmessage_X [OF e2] by simp
    also have "\<dots> = x_message cb A Map.empty (''X'' @ a @ '',Y'' @ b @ '',Z'' @ d)"
      by (rule x_message_cong) (simp only: t1 t2)
    also have "\<dots> = onmessage jp cb A (''X'' @ a @ '',Y'' @ b @ '',Z'' @ d)"
      using onmessage_X [OF e1] by simp
    finally show ?thesis .
  qed
qed

lemma tokens_1_0: "tokens_of ''1.0'' = [''1.0'']"
  by (simp add: tokens_of_def trim_js_def is_ws_def)

lemma tokens_0_5: "tokens_of ''0.5'' = [''0.5'']"
  by (simp add: tokens_of_def trim_js_def is_ws_def)

lemma example_parts_clean: "\<not> includes_js ''1.0'' '',Y''" "\<not> includes_js ''0.5'' '',Y''"
    "\<not> includes_js ''1.0'' '',Z''" "\<not> includes_js ''0.5'' '',Z''" "\<not> includes_js ''0.6'' '',Z''"
    by simp_all

lemma example_dual: "split_waveforms ''X1.0,Y0.5'' = Dual [''1.0''] [''0.5'']"
    using dual_one_Y [OF example_parts_clean(1,2,3,4)] by (simp add: tokens_1_0 tokens_0_5)


lemma example_amplitudes: "map amplitude (samples_of (onmessage Map.empty (Some (\<lambda>p. False)) 1000 ''X1.0,Y0.5''))
       = [Num 1, Num (1 / 2)]"
proof -
  have "onmessage Map.empty (Some (\<lambda>p. False)) 1000 ''X1.0,Y0.5''
      = x_message (Some (\<lambda>p. False)) 1000 Map.empty ''X1.0,Y0.5''"
    by (rule onmessage_X) simp
  then show ?thesis
    by (simp only: samples_of_x_message example_dual waveforms.case map_append amplitudes_channel)
       (simp add: parseFloat_1_0 parseFloat_0_5 isNaN_def)
qed


text \<open>
  The example of claim C10: in \<open>X1.0,Y0.5,Y0.6\<close> the Y channel is the token \<open>0.5\<close>, and the
  samples are those of \<open>1.0\<close> and \<open>0.5\<close>; the token \<open>0.6\<close> is in no channel.
\<close>

theorem extra_Y_parts_dropped_witness:
  "split_waveforms ''X1.0,Y0.5,Y0.6'' = Dual [''1.0''] [''0.5'']
   \<and> map amplitude (samples_of (onmessage Map.empty (Some (\<lambda>p. False)) 1000 ''X1.0,Y0.5,Y0.6''))
       = [Num 1, Num (1 / 2)]"
proof -
  note inst = extra_Y_parts_dropped [OF example_parts_clean, of Map.empty "Some (\<lambda>p. False)" 1000 "[]"]
  from inst have "split_waveforms ''X1.0,Y0.5,Y0.6'' = Dual (tokens_of ''1.0'') (tokens_of ''0.5'')"
    by simp
  moreover from inst have "onmessage Map.empty (Some (\<lambda>p. False)) 1000 ''X1.0,Y0.5,Y0.6''
      = onmessage Map.empty (Some (\<lambda>p. False)) 1000 ''X1.0,Y0.5''"
    by simp
  ultimately show ?thesis
    by (simp only: example_amplitudes tokens_1_0 tokens_0_5 simp_thms)
qed

section \<open>Properties of \<open>parseFloat\<close>\<close>




















section \<open>Properties of the message handler: the unlabeled round trip\<close>













section \<open>Properties of the message handler: the triple frame\<close>





























end
